theory Spec2Isabelle
  imports Main
begin

section \<open>Strings\<close>

text \<open>
  A Python \<open>str\<close> is modelled as a \<^typ>\<open>string\<close>, that is a list of 8-bit characters; a
  character stands for the code point with the same number, so the model covers source
  texts whose code points are below 256. The character classes below are those of
  Python 3 on that range: \<open>str.isspace\<close> (used by \<open>strip\<close>), the line boundaries of
  \<open>str.splitlines\<close>, and the classes \<open>\w\<close> and \<open>\d\<close> of the \<open>re\<close> module on \<open>str\<close> patterns.
\<close>

definition code_point :: "char \<Rightarrow> nat" where
  "code_point c = of_char c"

definition is_space :: "char \<Rightarrow> bool" where
  "is_space c = (let n = code_point c in
     (9 \<le> n \<and> n \<le> 13) \<or> (28 \<le> n \<and> n \<le> 32) \<or> n = 133 \<or> n = 160)"

definition is_linebreak :: "char \<Rightarrow> bool" where
  "is_linebreak c = (let n = code_point c in
     (10 \<le> n \<and> n \<le> 13) \<or> (28 \<le> n \<and> n \<le> 30) \<or> n = 133)"

definition is_digit :: "char \<Rightarrow> bool" where
  "is_digit c = (let n = code_point c in 48 \<le> n \<and> n \<le> 57)"

definition is_hex :: "char \<Rightarrow> bool" where
  "is_hex c = (let n = code_point c in
     (48 \<le> n \<and> n \<le> 57) \<or> (65 \<le> n \<and> n \<le> 70) \<or> (97 \<le> n \<and> n \<le> 102))"

definition is_word :: "char \<Rightarrow> bool" where
  "is_word c = (let n = code_point c in
     (48 \<le> n \<and> n \<le> 57) \<or> (65 \<le> n \<and> n \<le> 90) \<or> n = 95 \<or> (97 \<le> n \<and> n \<le> 122)
     \<or> n = 170 \<or> n = 178 \<or> n = 179 \<or> n = 181 \<or> n = 185 \<or> n = 186
     \<or> (188 \<le> n \<and> n \<le> 190) \<or> (192 \<le> n \<and> n \<le> 214) \<or> (216 \<le> n \<and> n \<le> 246)
     \<or> (248 \<le> n \<and> n \<le> 255))"

text \<open>\<open>str.lower\<close>, one character at a time.\<close>

definition lower_char :: "char \<Rightarrow> char" where
  "lower_char c = (let n = code_point c in
     if (65 \<le> n \<and> n \<le> 90) \<or> (192 \<le> n \<and> n \<le> 222 \<and> n \<noteq> 215) then char_of (n + 32) else c)"

definition lower :: "string \<Rightarrow> string" where
  "lower s = map lower_char s"

text \<open>\<open>s.strip()\<close>: white space is removed at both ends.\<close>

definition strip :: "string \<Rightarrow> string" where
  "strip s = rev (dropWhile is_space (rev (dropWhile is_space s)))"

text \<open>\<open>s.startswith(p)\<close> and \<open>s.endswith(p)\<close>.\<close>

fun startswith :: "string \<Rightarrow> string \<Rightarrow> bool" where
  "startswith [] s = True"
| "startswith (p # ps) [] = False"
| "startswith (p # ps) (c # cs) = (p = c \<and> startswith ps cs)"

definition endswith :: "string \<Rightarrow> string \<Rightarrow> bool" where
  "endswith p s = startswith (rev p) (rev s)"

text \<open>
  \<open>s.splitlines()\<close>: the text is cut at every line boundary, \<open>\r\n\<close> counting as one; the
  boundaries are dropped, and a boundary at the very end opens no further line. The first
  argument is the line read so far.
\<close>

fun splitlines_from :: "string \<Rightarrow> string \<Rightarrow> string list" where
  "splitlines_from cur [] = (if cur = [] then [] else [cur])"
| "splitlines_from cur [c] =
     (if is_linebreak c then [cur] else [cur @ [c]])"
| "splitlines_from cur (c # d # cs) =
     (if c = CHR 0x0D \<and> d = CHR 0x0A then cur # splitlines_from [] cs
      else if is_linebreak c then cur # splitlines_from [] (d # cs)
      else splitlines_from (cur @ [c]) (d # cs))"

definition splitlines :: "string \<Rightarrow> string list" where
  "splitlines s = splitlines_from [] s"

text \<open>\<open>s.split(",")\<close>: the pieces between separators; an empty string gives one empty piece.\<close>

fun split_on :: "char \<Rightarrow> string \<Rightarrow> string list" where
  "split_on sep [] = [[]]"
| "split_on sep (c # cs) =
     (if c = sep then [] # split_on sep cs
      else (case split_on sep cs of
              [] \<Rightarrow> [[c]]
            | x # xs \<Rightarrow> (c # x) # xs))"

text \<open>\<open>sep.join(xs)\<close>.\<close>

fun join :: "string \<Rightarrow> string list \<Rightarrow> string" where
  "join sep [] = []"
| "join sep [x] = x"
| "join sep (x # y # ys) = x @ sep @ join sep (y # ys)"

section \<open>The regular expressions of the parser\<close>

text \<open>
  Each pattern of the source is matched by \<open>re.match\<close>: anchored at the start of the line,
  free at its end unless the pattern ends in \<open>$\<close>. The matchers below follow the
  backtracking search pattern by pattern and return the captured groups.

  \<^item> A literal piece of a pattern is taken off the front of the text by \<open>lit\<close>.
  \<^item> \<open>\w+\<close>, \<open>\d+\<close> and \<open>[a-fA-F0-9]+\<close> are greedy; in every pattern of the source
    the piece that follows starts with a character outside the class, so the only
    repetition that can succeed is the longest one: \<open>run\<close> takes it and fails on an
    empty one.
  \<^item> \<open>.*\<close> is greedy as well and \<open>.\<close> matches every character except the newline
    \<open>\n\<close>. \<open>dot_star k acc s\<close> tries the longest repetition first and gives way one
    character at a time until the rest of the pattern, \<open>k\<close>, matches what is left;
    \<open>acc\<close> is the text taken so far. \<open>dot_plus\<close> is \<open>.+\<close>.
\<close>

fun lit :: "string \<Rightarrow> string \<Rightarrow> string option" where
  "lit [] s = Some s"
| "lit (p # ps) [] = None"
| "lit (p # ps) (c # cs) = (if p = c then lit ps cs else None)"

definition run :: "(char \<Rightarrow> bool) \<Rightarrow> string \<Rightarrow> (string \<times> string) option" where
  "run cls s = (if takeWhile cls s = [] then None
                else Some (takeWhile cls s, dropWhile cls s))"

fun dot_star :: "(string \<Rightarrow> 'a option) \<Rightarrow> string \<Rightarrow> string \<Rightarrow> (string \<times> 'a) option" where
  "dot_star k acc [] = map_option (Pair acc) (k [])"
| "dot_star k acc (c # cs) =
     (if c = CHR 0x0A then map_option (Pair acc) (k (c # cs))
      else (case dot_star k (acc @ [c]) cs of
              Some r \<Rightarrow> Some r
            | None \<Rightarrow> map_option (Pair acc) (k (c # cs))))"

fun dot_plus :: "(string \<Rightarrow> 'a option) \<Rightarrow> string \<Rightarrow> (string \<times> 'a) option" where
  "dot_plus k [] = None"
| "dot_plus k (c # cs) = (if c = CHR 0x0A then None else dot_star k [c] cs)"

text \<open>\<open>^\w+\(.*\)$\<close>; the \<open>$\<close> holds at the end of the text and before a final newline.\<close>

definition at_end :: "string \<Rightarrow> unit option" where
  "at_end s = (if s = [] \<or> s = [CHR 0x0A] then Some () else None)"

definition match_call :: "string \<Rightarrow> bool" where
  "match_call line =
     (case run is_word line of
        None \<Rightarrow> False
      | Some (w, r1) \<Rightarrow>
         (case lit ''('' r1 of
            None \<Rightarrow> False
          | Some r2 \<Rightarrow>
             dot_star (\<lambda>r. case lit '')'' r of None \<Rightarrow> None | Some r3 \<Rightarrow> at_end r3) [] r2
               \<noteq> None))"

text \<open>\<open>import (\w+) from (\w+)\<close>, giving groups 1 and 2.\<close>

definition match_single_import :: "string \<Rightarrow> (string \<times> string) option" where
  "match_single_import line =
     (case lit ''import '' line of
        None \<Rightarrow> None
      | Some r1 \<Rightarrow>
         (case run is_word r1 of
            None \<Rightarrow> None
          | Some (g1, r2) \<Rightarrow>
             (case lit '' from '' r2 of
                None \<Rightarrow> None
              | Some r3 \<Rightarrow>
                 (case run is_word r3 of
                    None \<Rightarrow> None
                  | Some (g2, r4) \<Rightarrow> Some (g1, g2)))))"

text \<open>\<open>import \[(.+)\] from (\w+)\<close>, giving groups 1 and 2.\<close>

definition from_module :: "string \<Rightarrow> string option" where
  "from_module r =
     (case lit ''] from '' r of
        None \<Rightarrow> None
      | Some r1 \<Rightarrow> map_option fst (run is_word r1))"

definition match_multi_import :: "string \<Rightarrow> (string \<times> string) option" where
  "match_multi_import line =
     (case lit ''import ['' line of
        None \<Rightarrow> None
      | Some r1 \<Rightarrow> dot_plus from_module r1)"

text \<open>\<open>local (\w+) = import (\w+) from (\w+)\<close>, giving groups 1, 2 and 3.\<close>

definition match_local_import :: "string \<Rightarrow> (string \<times> string \<times> string) option" where
  "match_local_import line =
     (case lit ''local '' line of
        None \<Rightarrow> None
      | Some r1 \<Rightarrow>
         (case run is_word r1 of
            None \<Rightarrow> None
          | Some (g1, r2) \<Rightarrow>
             (case lit '' = import '' r2 of
                None \<Rightarrow> None
              | Some r3 \<Rightarrow>
                 (case run is_word r3 of
                    None \<Rightarrow> None
                  | Some (g2, r4) \<Rightarrow>
                     (case lit '' from '' r4 of
                        None \<Rightarrow> None
                      | Some r5 \<Rightarrow>
                         (case run is_word r5 of
                            None \<Rightarrow> None
                          | Some (g3, r6) \<Rightarrow> Some (g1, g2, g3)))))))"

text \<open>\<open>#\!arch\[(.+)\]\<close>, giving group 1.\<close>

definition match_architecture :: "string \<Rightarrow> string option" where
  "match_architecture line =
     (case lit ''#!arch['' line of
        None \<Rightarrow> None
      | Some r1 \<Rightarrow> map_option fst (dot_plus (lit '']'') r1))"

text \<open>
  \<open>#\!\[(start|pad|sign)\((0x[a-fA-F0-9]+|\d+)\)\]\<close>, giving groups 1 and 2. The
  alternatives of a group are tried from left to right, each with the rest of the pattern.
\<close>

definition directive_value :: "string \<Rightarrow> string option" where
  "directive_value r =
     (let hex = (case lit ''0x'' r of
                   None \<Rightarrow> None
                 | Some r1 \<Rightarrow>
                    (case run is_hex r1 of
                       None \<Rightarrow> None
                     | Some (h, r2) \<Rightarrow>
                        (case lit '')]'' r2 of None \<Rightarrow> None | Some r3 \<Rightarrow> Some (''0x'' @ h))))
      in case hex of
           Some v \<Rightarrow> Some v
         | None \<Rightarrow>
            (case run is_digit r of
               None \<Rightarrow> None
             | Some (d, r2) \<Rightarrow>
                (case lit '')]'' r2 of None \<Rightarrow> None | Some r3 \<Rightarrow> Some d)))"

definition directive_named :: "string \<Rightarrow> string \<Rightarrow> (string \<times> string) option" where
  "directive_named nm r =
     (case lit nm r of
        None \<Rightarrow> None
      | Some r1 \<Rightarrow>
         (case lit ''('' r1 of
            None \<Rightarrow> None
          | Some r2 \<Rightarrow> map_option (Pair nm) (directive_value r2)))"

definition match_directive :: "string \<Rightarrow> (string \<times> string) option" where
  "match_directive line =
     (case lit ''#!['' line of
        None \<Rightarrow> None
      | Some r \<Rightarrow>
         (case directive_named ''start'' r of
            Some g \<Rightarrow> Some g
          | None \<Rightarrow>
             (case directive_named ''pad'' r of
                Some g \<Rightarrow> Some g
              | None \<Rightarrow> directive_named ''sign'' r)))"

text \<open>\<open>function (\w+)\((.*)\)\<close>, giving groups 1 and 2.\<close>

definition match_function_definition :: "string \<Rightarrow> (string \<times> string) option" where
  "match_function_definition line =
     (case lit ''function '' line of
        None \<Rightarrow> None
      | Some r1 \<Rightarrow>
         (case run is_word r1 of
            None \<Rightarrow> None
          | Some (g1, r2) \<Rightarrow>
             (case lit ''('' r2 of
                None \<Rightarrow> None
              | Some r3 \<Rightarrow> map_option (\<lambda>(g2, u). (g1, g2)) (dot_star (lit '')'') [] r3))))"

section \<open>The parser state\<close>

text \<open>
  \<open>SyntaxError\<close> is the only exception the source raises itself; \<open>TypeError\<close> is what
  \<open>"\n".join\<close> raises on a list that holds \<open>None\<close>.
\<close>

datatype error = SyntaxError string | TypeError string

text \<open>The dictionary \<open>{"name": ..., "params": ..., "body": ...}\<close> of one function.\<close>

record func =
  name :: string
  params :: "string list"
  body :: "string list"

text \<open>
  The fields of \<open>LuaASMParser\<close>. \<open>directives\<close> and \<open>imports\<close> (here
  \<open>imports_tbl\<close>) are only read by key, so they are maps; in \<open>directives\<close> the keys
  \<open>pad\<close>, \<open>sign\<close> and \<open>start\<close> are always present and \<open>None\<close> is Python's \<open>None\<close>.
  \<open>functions\<close> (here \<open>functions_tbl\<close>) is traversed by \<open>values()\<close>, in insertion
  order, so it is an association list kept in that order. The field \<open>ast\<close> is never read
  or written after construction and is left out.
\<close>

record parser =
  architecture :: "string option"
  directives :: "string \<Rightarrow> string option"
  functions_tbl :: "(string \<times> func) list"
  current_function :: "func option"
  code_outside_functions :: "string list"
  imports_tbl :: "string \<Rightarrow> string option"
  inline_asm :: "string list"

text \<open>\<open>d[k] = v\<close> on an insertion-ordered dictionary: a known key keeps its place.\<close>

fun dict_set :: "'k \<Rightarrow> 'v \<Rightarrow> ('k \<times> 'v) list \<Rightarrow> ('k \<times> 'v) list" where
  "dict_set k v [] = [(k, v)]"
| "dict_set k v ((k', v') # d) =
     (if k' = k then (k, v) # d else (k', v') # dict_set k v d)"

definition dict_values :: "('k \<times> 'v) list \<Rightarrow> 'v list" where
  "dict_values d = map snd d"

text \<open>\<open>LuaASMParser.__init__\<close>.\<close>

definition init :: parser where
  "init = \<lparr> architecture = None,
            directives = (\<lambda>k. None),
            functions_tbl = [],
            current_function = None,
            code_outside_functions = [],
            imports_tbl = (\<lambda>k. None),
            inline_asm = [] \<rparr>"

section \<open>The rules of the parser\<close>

text \<open>
  Every rule takes the parser and the line and returns the updated parser, or the
  \<open>SyntaxError\<close> it raises. The leading underscore of the method names is dropped.
\<close>

definition parse_import_definition :: "parser \<Rightarrow> string \<Rightarrow> error + parser" where
  "parse_import_definition st line =
     (case match_single_import line of
        Some (func_name, module_name) \<Rightarrow>
          Inr (st\<lparr>imports_tbl := (imports_tbl st)(func_name \<mapsto> module_name)\<rparr>)
      | None \<Rightarrow>
         (case match_multi_import line of
            Some (g1, module_name) \<Rightarrow>
              Inr (st\<lparr>imports_tbl :=
                     foldl (\<lambda>m f. m(f \<mapsto> module_name)) (imports_tbl st)
                       (map strip (split_on CHR '','' g1))\<rparr>)
          | None \<Rightarrow>
             (case match_local_import line of
                Some (local_var, func_name, module_name) \<Rightarrow>
                  Inr (st\<lparr>imports_tbl :=
                         (imports_tbl st)(local_var \<mapsto> module_name @ ''.'' @ func_name)\<rparr>)
              | None \<Rightarrow> Inl (SyntaxError (''Invalid import statement: '' @ line)))))"

definition parse_architecture :: "parser \<Rightarrow> string \<Rightarrow> error + parser" where
  "parse_architecture st line =
     (case match_architecture line of
        Some g1 \<Rightarrow> Inr (st\<lparr>architecture := Some g1\<rparr>)
      | None \<Rightarrow> Inl (SyntaxError (''Invalid architecture definition: '' @ line)))"

text \<open>\<open>line[4:-1]\<close> is \<open>butlast (drop 4 line)\<close>. The \<open>print("LOAD")\<close> is not modelled.\<close>

definition parse_inline_asm :: "parser \<Rightarrow> string \<Rightarrow> error + parser" where
  "parse_inline_asm st line =
     (if startswith ''asm('' line \<and> endswith '')'' line
      then Inr (st\<lparr>inline_asm := inline_asm st @ [strip (butlast (drop 4 line))]\<rparr>)
      else Inl (SyntaxError (''Invalid inline assembly format: '' @ line)))"

definition parse_directive :: "parser \<Rightarrow> string \<Rightarrow> error + parser" where
  "parse_directive st line =
     (case match_directive line of
        Some (directive, val) \<Rightarrow> Inr (st\<lparr>directives := (directives st)(directive \<mapsto> val)\<rparr>)
      | None \<Rightarrow> Inl (SyntaxError (''Invalid directive format: '' @ line)))"

definition parse_function_definition :: "parser \<Rightarrow> string \<Rightarrow> error + parser" where
  "parse_function_definition st line =
     (case match_function_definition line of
        Some (func_name, g2) \<Rightarrow>
          Inr (st\<lparr>current_function :=
                 Some \<lparr> name = func_name,
                        params = (if g2 \<noteq> [] then map strip (split_on CHR '','' g2) else []),
                        body = [] \<rparr>\<rparr>)
      | None \<Rightarrow> Inl (SyntaxError (''Invalid function definition: '' @ line)))"

definition end_function_definition :: "parser \<Rightarrow> parser" where
  "end_function_definition st =
     (case current_function st of
        Some cf \<Rightarrow> st\<lparr>functions_tbl := dict_set (name cf) cf (functions_tbl st),
                       current_function := None\<rparr>
      | None \<Rightarrow> st)"

definition parse_function_call :: "parser \<Rightarrow> string \<Rightarrow> parser" where
  "parse_function_call st line =
     (let func_call = strip line in
      case current_function st of
        Some cf \<Rightarrow> st\<lparr>current_function := Some (cf\<lparr>body := body cf @ [func_call]\<rparr>)\<rparr>
      | None \<Rightarrow> st\<lparr>code_outside_functions := code_outside_functions st @ [func_call]\<rparr>)"

definition parse_executable_code :: "parser \<Rightarrow> string \<Rightarrow> parser" where
  "parse_executable_code st line =
     st\<lparr>code_outside_functions := code_outside_functions st @ [strip line]\<rparr>"

text \<open>The body of the loop of \<open>parse\<close>, on a line that is already stripped and not empty.\<close>

definition parse_line :: "parser \<Rightarrow> string \<Rightarrow> error + parser" where
  "parse_line st line =
     (if startswith ''import'' line then parse_import_definition st line
      else if startswith ''#!arch['' line then parse_architecture st line
      else if startswith ''#!['' line then parse_directive st line
      else if startswith ''function'' line then parse_function_definition st line
      else if line = ''end'' then Inr (end_function_definition st)
      else if match_call line then Inr (parse_function_call st line)
      else if startswith ''asm('' line \<and> endswith '')'' line then parse_inline_asm st line
      else Inr (parse_executable_code st line))"

fun parse_lines :: "parser \<Rightarrow> string list \<Rightarrow> error + parser" where
  "parse_lines st [] = Inr st"
| "parse_lines st (l # ls) =
     (let line = strip l in
      if line = [] then parse_lines st ls
      else (case parse_line st line of
              Inl e \<Rightarrow> Inl e
            | Inr st' \<Rightarrow> parse_lines st' ls))"

definition parse :: "parser \<Rightarrow> string \<Rightarrow> error + parser" where
  "parse st code = parse_lines st (splitlines (strip code))"

section \<open>The code generator\<close>

text \<open>The truth value of an optional string: \<open>None\<close> and the empty string are false.\<close>

definition truthy :: "string option \<Rightarrow> bool" where
  "truthy v = (case v of None \<Rightarrow> False | Some s \<Rightarrow> s \<noteq> [])"

text \<open>
  The loop \<open>for asm in self.inline_asm: output.append(self._parse_inline_asm(asm))\<close>.
  The rule appends to the very list the loop runs over, and the iterator of a Python list
  reads the list by position and compares the position with the current length at every
  step: so the loop is a recursion on the position \<open>i\<close>, reading \<open>inline_asm\<close> of the
  current parser. The rule returns \<open>None\<close>, which is what \<open>output\<close> receives.
\<close>

function asm_loop ::
  "nat \<Rightarrow> parser \<Rightarrow> string option list \<Rightarrow> error + (parser \<times> string option list)" where
  "asm_loop i st output =
     (if i < length (inline_asm st)
      then (case parse_inline_asm st (inline_asm st ! i) of
              Inl e \<Rightarrow> Inl e
            | Inr st' \<Rightarrow> asm_loop (Suc i) st' (output @ [None]))
      else Inr (st, output))"
  by pat_completeness auto
termination
proof (relation "measure (\<lambda>(i, st, output).
                   sum_list (map (\<lambda>s. Suc (length s)) (drop i (inline_asm st))))")
  show "wf (measure (\<lambda>(i, st, output).
              sum_list (map (\<lambda>s. Suc (length s)) (drop i (inline_asm st)))))"
    by simp
next
  fix i :: nat and st st' :: parser and out :: "string option list"
  assume i: "i < length (inline_asm st)"
    and ok: "parse_inline_asm st (inline_asm st ! i) = Inr st'"
  let ?b = "inline_asm st ! i"
  let ?new = "strip (butlast (drop 4 ?b))"
  have st': "inline_asm st' = inline_asm st @ [?new]" and ne: "?b \<noteq> []"
    using ok by (auto simp: parse_inline_asm_def split: if_splits)
  have "length ?new \<le> length (dropWhile is_space (butlast (drop 4 ?b)))"
    unfolding strip_def
    using length_dropWhile_le [of is_space "rev (dropWhile is_space (butlast (drop 4 ?b)))"]
    by simp
  also have "\<dots> \<le> length (butlast (drop 4 ?b))" by (rule length_dropWhile_le)
  also have "\<dots> < length ?b" using ne by (cases ?b) auto
  finally have shorter: "length ?new < length ?b" .
  have before: "drop i (inline_asm st) = ?b # drop (Suc i) (inline_asm st)"
    using i by (simp add: Cons_nth_drop_Suc)
  have after: "drop (Suc i) (inline_asm st') = drop (Suc i) (inline_asm st) @ [?new]"
    using i st' by simp
  show "((Suc i, st', out @ [None]), (i, st, out))
          \<in> measure (\<lambda>(i, st, output).
               sum_list (map (\<lambda>s. Suc (length s)) (drop i (inline_asm st))))"
    using shorter by (simp add: before after)
qed

declare asm_loop.simps [simp del]

text \<open>
  \<open>generate_output\<close> is the list \<open>output\<close> at the end of \<open>generate_code\<close>, before it is
  joined; an entry is a string or \<open>None\<close>.
\<close>

definition generate_output :: "parser \<Rightarrow> error + string option list" where
  "generate_output st =
     (let output = [];
          output = (case architecture st of
                      None \<Rightarrow> output
                    | Some a \<Rightarrow>
                       if a = [] then output
                       else output @ [Some (if lower a = ''x86'' then ''BITS 32''
                                            else if lower a = ''x64'' then ''BITS 64''
                                            else if lower a = ''x16'' then ''BITS 16''
                                            else ''BITS 32'')]);
          output = (case directives st ''start'' of
                      None \<Rightarrow> output
                    | Some v \<Rightarrow> if v = [] then output else output @ [Some (''ORG '' @ v)]);
          output = output @ [Some ''_start:''];
          output = output @ [Some ''  push 2''];
          output = output @ [Some ''  push 3''];
          output = output @ [Some ''  push 5''];
          output = output @ [Some ''  call add''];
          output = output @ [Some ''  add esp, 12''];
          output = foldl (\<lambda>output line. output @ [Some (''  '' @ line)])
                     output (code_outside_functions st);
          output = foldl (\<lambda>output func.
                            output @ [Some (name func @ '':'')]
                                   @ [Some ''  mov eax, [esp + 4]'']
                                   @ [Some ''  add eax, [esp + 8]'']
                                   @ [Some ''  add eax, [esp + 12]'']
                                   @ [Some ''  ret''])
                     output (dict_values (functions_tbl st))
      in case asm_loop 0 st output of
           Inl e \<Rightarrow> Inl e
         | Inr (st', output) \<Rightarrow>
            (let output = (case directives st' ''pad'' of
                             None \<Rightarrow> output
                           | Some padding_value \<Rightarrow>
                              if padding_value = [] then output
                              else output @ [Some (''  times '' @ padding_value
                                                     @ '' - ($ - $$) db 0'')]);
                 output = (case directives st' ''sign'' of
                             None \<Rightarrow> output
                           | Some v \<Rightarrow>
                              if v = [] then output
                              else output @ [Some (''  dw '' @ v @ ''  ; Signature'')])
             in Inr output))"

text \<open>\<open>str(n)\<close> for a natural number: its decimal digits.\<close>

fun str_nat :: "nat \<Rightarrow> string" where
  "str_nat n = (if n < 10 then [char_of (48 + n)]
                else str_nat (n div 10) @ [char_of (48 + n mod 10)])"

declare str_nat.simps [simp del]

text \<open>
  \<open>"\n".join(output)\<close> raises a \<open>TypeError\<close> when an entry is \<open>None\<close>; the message
  names the position of the first such entry.
\<close>

definition join_output :: "string option list \<Rightarrow> error + string" where
  "join_output output =
     (if None \<in> set output
      then Inl (TypeError (''sequence item '' @ str_nat (length (takeWhile (\<lambda>x. x \<noteq> None) output))
                            @ '': expected str instance, NoneType found''))
      else Inr (join [CHR 0x0A] (map the output)))"

definition generate_code :: "parser \<Rightarrow> error + string" where
  "generate_code st =
     (case generate_output st of
        Inl e \<Rightarrow> Inl e
      | Inr output \<Rightarrow> join_output output)"

text \<open>
  \<open>main\<close>, from the text read from the input file to the text written to the output
  path: \<open>Inr\<close> holds what is written, \<open>Inl\<close> is the exception that leaves \<open>main\<close> before
  the output file is opened.
\<close>

definition main :: "string \<Rightarrow> error + string" where
  "main luaasm_code =
     (case parse init luaasm_code of
        Inl e \<Rightarrow> Inl e
      | Inr st \<Rightarrow> generate_code st)"

section \<open>Unfolding the model\<close>

lemmas char_defs =
  code_point_def is_space_def is_linebreak_def is_digit_def is_hex_def is_word_def

lemmas match_defs =
  run_def at_end_def match_call_def match_single_import_def from_module_def
  match_multi_import_def match_local_import_def match_architecture_def directive_value_def
  directive_named_def match_directive_def match_function_definition_def

lemmas rule_defs =
  parse_import_definition_def parse_architecture_def parse_inline_asm_def
  parse_directive_def parse_function_definition_def end_function_definition_def
  parse_function_call_def parse_executable_code_def parse_line_def

lemmas eval_defs =
  parse_def main_def splitlines_def strip_def endswith_def init_def
  char_defs match_defs rule_defs

lemma startswith_iff: "startswith p s \<longleftrightarrow> (\<exists>r. s = p @ r)"
  by (induction p s rule: startswith.induct) auto

lemma endswith_iff: "endswith p s \<longleftrightarrow> (\<exists>r. s = r @ p)"
proof
  assume "endswith p s"
  then obtain r where "rev s = rev p @ r" by (auto simp: endswith_def startswith_iff)
  then have "s = rev r @ p" by (metis rev_append rev_rev_ident)
  then show "\<exists>r. s = r @ p" by blast
next
  assume "\<exists>r. s = r @ p"
  then show "endswith p s" by (auto simp: endswith_def startswith_iff)
qed

lemma set_strip: "set (strip s) \<subseteq> set s"
proof -
  have "set (strip s) \<subseteq> set (dropWhile is_space s)"
    unfolding strip_def using set_dropWhileD [of _ is_space "rev (dropWhile is_space s)"] by auto
  also have "\<dots> \<subseteq> set s" using set_dropWhileD [of _ is_space s] by auto
  finally show ?thesis .
qed

text \<open>No line of \<open>splitlines\<close> holds a newline.\<close>

lemma splitlines_from_no_newline:
  "l \<in> set (splitlines_from cur s) \<Longrightarrow> CHR 0x0A \<notin> set cur \<Longrightarrow> CHR 0x0A \<notin> set l"
proof (induction cur s rule: splitlines_from.induct)
  case (1 cur)
  then show ?case by (auto split: if_splits)
next
  case (2 cur c)
  then show ?case by (auto simp: is_linebreak_def code_point_def split: if_splits)
next
  case (3 cur c d cs)
  have lb: "is_linebreak (CHR 0x0A)" by (simp add: is_linebreak_def code_point_def)
  show ?case
  proof (cases "c = CHR 0x0D \<and> d = CHR 0x0A")
    case True
    then show ?thesis using 3 by auto
  next
    case nocrlf: False
    show ?thesis
    proof (cases "is_linebreak c")
      case True
      then show ?thesis using 3 nocrlf by auto
    next
      case False
      then have "c \<noteq> CHR 0x0A" using lb by auto
      then show ?thesis using 3 nocrlf False by auto
    qed
  qed
qed

lemma parsed_lines_no_newline:
  "\<forall>l \<in> set (map strip (splitlines (strip code))). CHR 0x0A \<notin> set l"
  using splitlines_from_no_newline [of _ "[]" "strip code"] set_strip
  by (fastforce simp: splitlines_def)

text \<open>Every exception of the parser is a \<open>SyntaxError\<close>.\<close>

lemma parse_line_error: "parse_line st l = Inl e \<Longrightarrow> \<exists>m. e = SyntaxError m"
  by (auto simp: rule_defs split: if_splits option.splits)

section \<open>A directive with an unknown name\<close>

lemma parse_line_foo:
  "parse_line st ''#![foo(1)]'' = Inl (SyntaxError ''Invalid directive format: #![foo(1)]'')"
  by (simp add: parse_line_def parse_directive_def match_directive_def directive_named_def)

lemma parse_lines_foo:
  "''#![foo(1)]'' \<in> set (map strip ls) \<Longrightarrow> \<exists>m. parse_lines st ls = Inl (SyntaxError m)"
proof (induction ls arbitrary: st)
  case Nil
  then show ?case by simp
next
  case (Cons l ls)
  show ?case
  proof (cases "strip l = ''#![foo(1)]''")
    case True
    then show ?thesis by (simp add: parse_line_foo)
  next
    case False
    with Cons.prems have rest: "''#![foo(1)]'' \<in> set (map strip ls)" by auto
    show ?thesis
    proof (cases "strip l = []")
      case True
      then show ?thesis using Cons.IH [OF rest] by simp
    next
      case ne: False
      show ?thesis
      proof (cases "parse_line st (strip l)")
        case (Inl e)
        then show ?thesis using ne parse_line_error [OF Inl] by auto
      next
        case (Inr st')
        then show ?thesis using ne Cons.IH [OF rest, of st'] by simp
      qed
    qed
  qed
qed

text \<open>
  Claim C9. Whenever one of the lines of the input, as \<open>parse\<close> reads them (split and
  stripped), is \<open>#![foo(1)]\<close>, the parse of a fresh parser raises a \<open>SyntaxError\<close>, and
  \<open>main\<close> ends with that same exception: the generator is not run and no text is
  written.
\<close>

theorem unknown_directive_aborts:
  assumes "''#![foo(1)]'' \<in> set (map strip (splitlines (strip code)))"
  shows "\<exists>m. parse init code = Inl (SyntaxError m) \<and> main code = Inl (SyntaxError m)"
proof -
  obtain m where "parse_lines init (splitlines (strip code)) = Inl (SyntaxError m)"
    using parse_lines_foo [OF assms] by blast
  then show ?thesis by (auto simp: parse_def main_def)
qed

theorem unknown_directive_aborts_witness:
  "''#![foo(1)]'' \<in> set (map strip (splitlines (strip
       (''#!arch[x86]'' @ [CHR 0x0A] @ ''  #![foo(1)]'' @ [CHR 0x0A] @ ''foo()''))))
   \<and> (\<exists>m. parse init (''#!arch[x86]'' @ [CHR 0x0A] @ ''  #![foo(1)]'' @ [CHR 0x0A] @ ''foo()'')
            = Inl (SyntaxError m)
          \<and> main (''#!arch[x86]'' @ [CHR 0x0A] @ ''  #![foo(1)]'' @ [CHR 0x0A] @ ''foo()'')
            = Inl (SyntaxError m))"
proof -
  have h: "''#![foo(1)]'' \<in> set (map strip (splitlines (strip
             (''#!arch[x86]'' @ [CHR 0x0A] @ ''  #![foo(1)]'' @ [CHR 0x0A] @ ''foo()''))))"
    by (simp add: splitlines_def strip_def char_defs)
  show ?thesis using h unknown_directive_aborts [OF h] by simp
qed

section \<open>Lines of the form \<open>asm(...)\<close>\<close>

text \<open>
  \<open>.*\<close> followed by the rest \<open>k\<close> of a pattern finds a match whenever \<open>k\<close> matches
  somewhere before the first newline.
\<close>

lemma dot_star_here: "k s \<noteq> None \<Longrightarrow> dot_star k acc s \<noteq> None"
  by (cases s) (auto split: option.splits)

lemma dot_star_reaches:
  "CHR 0x0A \<notin> set xs \<Longrightarrow> k ys \<noteq> None \<Longrightarrow> dot_star k acc (xs @ ys) \<noteq> None"
proof (induction xs arbitrary: acc)
  case Nil
  then show ?case by (simp add: dot_star_here)
next
  case (Cons x xs)
  then have "dot_star k (acc @ [x]) (xs @ ys) \<noteq> None" by simp
  then show ?case using Cons.prems by (auto split: option.splits)
qed

lemma asm_line_is_call:
  assumes "startswith ''asm('' l" and "endswith '')'' l" and "CHR 0x0A \<notin> set l"
  shows "match_call l"
proof -
  obtain r where l: "l = ''asm('' @ r" using assms(1) by (auto simp: startswith_iff)
  obtain r' where l': "l = r' @ '')''" using assms(2) by (auto simp: endswith_iff)
  have "r \<noteq> []" using l l' by auto
  then have "last r = CHR '')''" using l l' by (metis last_appendR last_snoc)
  with \<open>r \<noteq> []\<close> have r: "r = butlast r @ '')''" by (metis append_butlast_last_id)
  have nl: "CHR 0x0A \<notin> set (butlast r)"
    using assms(3) l by (auto dest: in_set_butlastD)
  have "dot_star (\<lambda>r. case lit '')'' r of None \<Rightarrow> None | Some r3 \<Rightarrow> at_end r3) []
          (butlast r @ '')'') \<noteq> None"
    by (rule dot_star_reaches [OF nl]) (simp add: at_end_def)
  with r
  have "dot_star (\<lambda>r. case lit '')'' r of None \<Rightarrow> None | Some r3 \<Rightarrow> at_end r3) [] r \<noteq> None"
    by simp
  then show ?thesis by (simp add: l match_call_def run_def char_defs)
qed

lemma asm_line_rule:
  assumes "startswith ''asm('' l" and "endswith '')'' l" and "CHR 0x0A \<notin> set l"
  shows "parse_line st l = Inr (parse_function_call st l)"
proof -
  obtain r where l: "l = ''asm('' @ r" using assms(1) by (auto simp: startswith_iff)
  have "match_call l" by (rule asm_line_is_call [OF assms])
  then show ?thesis by (simp add: parse_line_def) (simp add: l)
qed

lemma parse_line_inline_asm:
  assumes "parse_line st l = Inr st'" and "CHR 0x0A \<notin> set l"
  shows "inline_asm st' = inline_asm st"
proof (cases "startswith ''asm('' l \<and> endswith '')'' l")
  case True
  then have "parse_line st l = Inr (parse_function_call st l)"
    using asm_line_rule assms(2) by blast
  with assms(1) show ?thesis
    by (auto simp: parse_function_call_def Let_def split: option.splits)
next
  case False
  with assms(1) show ?thesis
    by (auto simp: rule_defs Let_def split: if_splits option.splits)
qed

lemma parse_lines_inline_asm:
  "parse_lines st ls = Inr st' \<Longrightarrow> \<forall>l \<in> set ls. CHR 0x0A \<notin> set l
     \<Longrightarrow> inline_asm st' = inline_asm st"
proof (induction ls arbitrary: st)
  case Nil
  then show ?case by simp
next
  case (Cons l ls)
  have nl: "CHR 0x0A \<notin> set (strip l)" using Cons.prems(2) set_strip [of l] by auto
  show ?case
  proof (cases "strip l = []")
    case True
    then show ?thesis using Cons by simp
  next
    case False
    then obtain st1 where st1: "parse_line st (strip l) = Inr st1"
      and rest: "parse_lines st1 ls = Inr st'"
      using Cons.prems(1) by (auto split: sum.splits)
    have "inline_asm st' = inline_asm st1" using Cons.IH [OF rest] Cons.prems(2) by simp
    then show ?thesis using parse_line_inline_asm [OF st1 nl] by simp
  qed
qed

lemma parse_inline_asm_unchanged:
  assumes "parse st code = Inr st'"
  shows "inline_asm st' = inline_asm st"
proof -
  have "\<forall>l \<in> set (splitlines (strip code)). CHR 0x0A \<notin> set l"
    using splitlines_from_no_newline [of _ "[]" "strip code"] by (auto simp: splitlines_def)
  then show ?thesis using assms parse_lines_inline_asm by (auto simp: parse_def)
qed

text \<open>
  Claim C4. When the parse of a fresh parser completes, \<open>inline_asm\<close> is empty. Every
  line of the input, as \<open>parse\<close> reads it, that starts with \<open>asm(\<close> and ends with \<open>)\<close>
  matches the call pattern \<open>^\w+\(.*\)$\<close>, which is tested first, and is handled by the
  function-call rule (which appends it to the body of the open function or to
  \<open>code_outside_functions\<close>), whatever the state of the parser: the inline-assembly
  branch is never taken.
\<close>

theorem inline_asm_branch_unreachable:
  assumes "parse init code = Inr st"
  shows "inline_asm st = []
       \<and> (\<forall>l \<in> set (map strip (splitlines (strip code))).
            startswith ''asm('' l \<and> endswith '')'' l \<longrightarrow>
            match_call l \<and> (\<forall>s. parse_line s l = Inr (parse_function_call s l)))"
proof -
  have "inline_asm st = []"
    using parse_inline_asm_unchanged [OF assms] by (simp add: init_def)
  then show ?thesis
    using parsed_lines_no_newline [of code] asm_line_is_call asm_line_rule by blast
qed

theorem inline_asm_branch_unreachable_witness:
  "parse init (''function f()'' @ [CHR 0x0A] @ ''asm(nop)'' @ [CHR 0x0A] @ ''end''
                 @ [CHR 0x0A] @ ''asm(mov eax, 1)'')
     = Inr (init\<lparr>functions_tbl := [(''f'', \<lparr>name = ''f'', params = [], body = [''asm(nop)'']\<rparr>)],
                 code_outside_functions := [''asm(mov eax, 1)'']\<rparr>)
   \<and> inline_asm (init\<lparr>functions_tbl :=
                         [(''f'', \<lparr>name = ''f'', params = [], body = [''asm(nop)'']\<rparr>)],
                       code_outside_functions := [''asm(mov eax, 1)'']\<rparr>) = []
   \<and> startswith ''asm('' ''asm(nop)'' \<and> endswith '')'' ''asm(nop)''
   \<and> match_call ''asm(nop)''
   \<and> parse_line init ''asm(nop)'' = Inr (parse_function_call init ''asm(nop)'')"
proof -
  let ?code = "''function f()'' @ [CHR 0x0A] @ ''asm(nop)'' @ [CHR 0x0A] @ ''end''
                 @ [CHR 0x0A] @ ''asm(mov eax, 1)''"
  let ?st = "init\<lparr>functions_tbl := [(''f'', \<lparr>name = ''f'', params = [], body = [''asm(nop)'']\<rparr>)],
                  code_outside_functions := [''asm(mov eax, 1)'']\<rparr>"
  have h: "parse init ?code = Inr ?st" by (simp add: eval_defs)
  have m: "''asm(nop)'' \<in> set (map strip (splitlines (strip ?code)))"
    by (simp add: eval_defs)
  have e: "startswith ''asm('' ''asm(nop)'' \<and> endswith '')'' ''asm(nop)''"
    by (simp add: endswith_def)
  show ?thesis using h m e inline_asm_branch_unreachable [OF h] by blast
qed

text \<open>The inline-assembly rule, on a line in the \<open>asm(...)\<close> envelope.\<close>

lemma parse_inline_asm_rule:
  "startswith ''asm('' l \<Longrightarrow> endswith '')'' l
     \<Longrightarrow> parse_inline_asm st l
           = Inr (st\<lparr>inline_asm := inline_asm st @ [strip (butlast (drop 4 l))]\<rparr>)"
  by (simp add: parse_inline_asm_def)

text \<open>
  Claim C3. The rule \<open>_parse_inline_asm\<close> itself does what the claim says on a line in
  the \<open>asm(...)\<close> envelope, but \<open>parse\<close> never hands it such a line: the input
  \<open>asm(nop)\<close> is recorded as a call in \<open>code_outside_functions\<close> and \<open>inline_asm\<close>
  stays empty.
\<close>

theorem asm_line_recorded_as_call:
  "map_sum id (\<lambda>s. (inline_asm s, code_outside_functions s)) (parse init ''asm(nop)'')
     = Inr ([], [''asm(nop)''])
   \<and> map_sum id inline_asm (parse_inline_asm init ''asm(nop)'') = Inr [''nop'']"
  by (simp add: eval_defs)

section \<open>Local imports\<close>

text \<open>
  A line that starts with \<open>local\<close> followed by a space does not start with \<open>import\<close>, so
  \<open>parse\<close> does not send it to the import rule; none of the other tests holds
  either, and the line is recorded by the free-statement rule.
\<close>

lemma local_line_rule:
  "parse_line st (''local '' @ r) = Inr (parse_executable_code st (''local '' @ r))"
  by (simp add: parse_line_def match_call_def run_def char_defs)

text \<open>
  Claim C1. The import rule, applied to \<open>local x = import f from m\<close>, binds \<open>x\<close> to
  \<open>m.f\<close>; but parsing that line leaves \<open>imports\<close> without a binding for \<open>x\<close> and
  records the line in \<open>code_outside_functions\<close>.
\<close>

theorem local_import_not_bound:
  "map_sum id (\<lambda>s. (imports_tbl s ''x'', code_outside_functions s))
       (parse init ''local x = import f from m'')
     = Inr (None, [''local x = import f from m''])
   \<and> map_sum id (\<lambda>s. imports_tbl s ''x'')
       (parse_import_definition init ''local x = import f from m'')
     = Inr (Some ''m.f'')"
  by (simp add: eval_defs)

section \<open>Statements inside a function\<close>

text \<open>
  Claim C2. After \<open>function f()\<close> a function is open; the line \<open>mov eax, 1\<close> that
  follows is not a call, and the free-statement rule appends it to
  \<open>code_outside_functions\<close> although the function is open; the body of \<open>f\<close> stays
  empty.
\<close>

theorem statement_in_open_function_is_free:
  "map_sum id current_function (parse init ''function f()'')
     = Inr (Some \<lparr>name = ''f'', params = [], body = []\<rparr>)
   \<and> map_sum id (\<lambda>s. (functions_tbl s, code_outside_functions s))
       (parse init (''function f()'' @ [CHR 0x0A] @ ''mov eax, 1'' @ [CHR 0x0A] @ ''end''))
     = Inr ([(''f'', \<lparr>name = ''f'', params = [], body = []\<rparr>)], [''mov eax, 1''])"
  by (simp add: eval_defs)

section \<open>The loop over \<open>inline_asm\<close>\<close>

lemma asm_loop_empty: "inline_asm st = [] \<Longrightarrow> asm_loop 0 st out = Inr (st, out)"
  by (simp add: asm_loop.simps)

lemma asm_loop_fails:
  "i < length (inline_asm st) \<Longrightarrow> \<exists>m. asm_loop i st out = Inl (SyntaxError m)"
proof (induction i st out rule: asm_loop.induct)
  case (1 i st out)
  show ?case
  proof (cases "parse_inline_asm st (inline_asm st ! i)")
    case (Inl e)
    then obtain m where "e = SyntaxError m"
      by (auto simp: parse_inline_asm_def split: if_splits)
    with Inl "1.prems" show ?thesis by (simp add: asm_loop.simps [of i])
  next
    case (Inr st')
    then have "inline_asm st' = inline_asm st @ [strip (butlast (drop 4 (inline_asm st ! i)))]"
      by (auto simp: parse_inline_asm_def split: if_splits)
    then have "Suc i < length (inline_asm st')" using "1.prems" by simp
    from "1.IH" [OF "1.prems" Inr this] Inr "1.prems" show ?thesis
      by (simp add: asm_loop.simps [of i])
  qed
qed

lemma asm_loop_error_cong:
  "inline_asm st2 = inline_asm st \<Longrightarrow> asm_loop i st out = Inl e
     \<Longrightarrow> asm_loop i st2 out2 = Inl e"
proof (induction i st out arbitrary: st2 out2 rule: asm_loop.induct)
  case (1 i st out)
  from "1.prems"(2) have i: "i < length (inline_asm st)"
    by (auto simp: asm_loop.simps [of i st] split: if_splits)
  show ?case
  proof (cases "parse_inline_asm st (inline_asm st ! i)")
    case (Inl e')
    with "1.prems" i have "e' = e" by (simp add: asm_loop.simps [of i st])
    with Inl have "parse_inline_asm st2 (inline_asm st2 ! i) = Inl e"
      using "1.prems"(1) by (auto simp: parse_inline_asm_def split: if_splits)
    then show ?thesis using i "1.prems"(1) by (simp add: asm_loop.simps [of i st2])
  next
    case (Inr st')
    let ?st2' = "st2\<lparr>inline_asm := inline_asm st2 @ [strip (butlast (drop 4 (inline_asm st2 ! i)))]\<rparr>"
    from Inr have ok: "parse_inline_asm st2 (inline_asm st2 ! i) = Inr ?st2'"
      and eq: "inline_asm ?st2' = inline_asm st'"
      using "1.prems"(1) by (auto simp: parse_inline_asm_def split: if_splits)
    from "1.prems"(2) Inr i have "asm_loop (Suc i) st' (out @ [None]) = Inl e"
      by (simp add: asm_loop.simps [of i st])
    from "1.IH" [OF i Inr eq this] have "asm_loop (Suc i) ?st2' (out2 @ [None]) = Inl e" .
    with ok i "1.prems"(1) show ?thesis by (simp add: asm_loop.simps [of i st2])
  qed
qed

lemma foldl_snoc_map: "foldl (\<lambda>out x. out @ [f x]) acc xs = acc @ map f xs"
  by (induction xs arbitrary: acc) auto

lemma foldl_append_concat: "foldl (\<lambda>out x. out @ g x) acc xs = acc @ concat (map g xs)"
  by (induction xs arbitrary: acc) auto

section \<open>The shape of the generated lines\<close>

lemma opt_line_append:
  "(case x of None \<Rightarrow> out | Some v \<Rightarrow> if v = [] then out else out @ [f v])
     = out @ (case x of None \<Rightarrow> [] | Some v \<Rightarrow> if v = [] then [] else [f v])"
  by (simp split: option.splits)

lemma generate_output_empty:
  assumes "inline_asm st = []"
  shows "generate_output st = Inr (
      (case architecture st of
         None \<Rightarrow> []
       | Some a \<Rightarrow> if a = [] then []
                   else [Some (if lower a = ''x86'' then ''BITS 32''
                               else if lower a = ''x64'' then ''BITS 64''
                               else if lower a = ''x16'' then ''BITS 16''
                               else ''BITS 32'')])
    @ (case directives st ''start'' of
         None \<Rightarrow> [] | Some v \<Rightarrow> if v = [] then [] else [Some (''ORG '' @ v)])
    @ [Some ''_start:'', Some ''  push 2'', Some ''  push 3'', Some ''  push 5'',
       Some ''  call add'', Some ''  add esp, 12'']
    @ map (\<lambda>l. Some (''  '' @ l)) (code_outside_functions st)
    @ concat (map (\<lambda>f. [Some (name f @ '':''), Some ''  mov eax, [esp + 4]'',
                         Some ''  add eax, [esp + 8]'', Some ''  add eax, [esp + 12]'',
                         Some ''  ret'']) (map snd (functions_tbl st)))
    @ (case directives st ''pad'' of
         None \<Rightarrow> []
       | Some v \<Rightarrow> if v = [] then [] else [Some (''  times '' @ v @ '' - ($ - $$) db 0'')])
    @ (case directives st ''sign'' of
         None \<Rightarrow> []
       | Some v \<Rightarrow> if v = [] then [] else [Some (''  dw '' @ v @ ''  ; Signature'')]))"
  unfolding generate_output_def Let_def opt_line_append dict_values_def
  using assms
  by (simp add: asm_loop_empty foldl_snoc_map
        foldl_append_concat [where g = "\<lambda>f. [Some (name f @ '':''), Some ''  mov eax, [esp + 4]'',
                         Some ''  add eax, [esp + 8]'', Some ''  add eax, [esp + 12]'',
                         Some ''  ret'']"])

lemma generate_output_error:
  assumes "\<And>out. asm_loop 0 st out = Inl e"
  shows "generate_output st = Inl e"
  unfolding generate_output_def Let_def by (simp only: assms sum.case)

lemma join_output_Some: "join_output (map Some xs) = Inr (join [CHR 0x0A] xs)"
  by (auto simp: join_output_def comp_def)


section \<open>Generation with inline assembly\<close>

text \<open>
  Claim C5. When \<open>inline_asm\<close> is not empty and none of its entries starts with \<open>asm(\<close>
  and ends with \<open>)\<close>, \<open>generate_code\<close> raises the \<open>SyntaxError\<close> of the inline-assembly
  rule for the first entry, and so returns no text.
\<close>

theorem inline_asm_entry_fails_generation:
  assumes "inline_asm st \<noteq> []"
    and "\<forall>e \<in> set (inline_asm st). \<not> (startswith ''asm('' e \<and> endswith '')'' e)"
  shows "generate_code st
           = Inl (SyntaxError (''Invalid inline assembly format: '' @ hd (inline_asm st)))"
proof -
  obtain e es where es: "inline_asm st = e # es" using assms(1) by (cases "inline_asm st") auto
  with assms(2) have "\<not> (startswith ''asm('' e \<and> endswith '')'' e)" by simp
  then have "parse_inline_asm st e = Inl (SyntaxError (''Invalid inline assembly format: '' @ e))"
    by (simp add: parse_inline_asm_def)
  then have "asm_loop 0 st out = Inl (SyntaxError (''Invalid inline assembly format: '' @ e))" for out
    using es by (simp add: asm_loop.simps [of 0])
  then have "generate_output st = Inl (SyntaxError (''Invalid inline assembly format: '' @ e))"
    by (rule generate_output_error)
  then show ?thesis using es by (simp add: generate_code_def)
qed

theorem inline_asm_entry_fails_generation_witness:
  "inline_asm (init\<lparr>inline_asm := [''nop'']\<rparr>) \<noteq> []
   \<and> \<not> (startswith ''asm('' ''nop'' \<and> endswith '')'' ''nop'')
   \<and> generate_code (init\<lparr>inline_asm := [''nop'']\<rparr>)
       = Inl (SyntaxError ''Invalid inline assembly format: nop'')"
proof -
  have a: "inline_asm (init\<lparr>inline_asm := [''nop'']\<rparr>) \<noteq> []" by simp
  have b: "\<forall>e \<in> set (inline_asm (init\<lparr>inline_asm := [''nop'']\<rparr>)).
             \<not> (startswith ''asm('' e \<and> endswith '')'' e)" by simp
  show ?thesis using a b inline_asm_entry_fails_generation [OF a b] by simp
qed

section \<open>Generation of the functions\<close>

text \<open>
  Claim C6. For every parser state there are lines \<open>pre\<close> and \<open>post\<close> such that, whatever
  the table of functions \<open>fs\<close> is, the text generated (when \<open>inline_asm\<close> is empty, that
  is whenever a text is generated at all) consists of \<open>pre\<close>, then for each entry of
  \<open>fs\<close>, in the order of the table, the label \<open>name:\<close> and the same four lines, then
  \<open>post\<close>. The lines emitted for a function depend on its name alone: its parameters
  and its body have no effect. When \<open>inline_asm\<close> is not empty the generation raises the
  same exception whatever the table is.
\<close>

theorem functions_emitted_with_fixed_body:
  "\<exists>pre post err. \<forall>fs.
     generate_code (st\<lparr>functions_tbl := fs\<rparr>) =
       (if inline_asm st = []
        then Inr (join [CHR 0x0A]
               (pre @ concat (map (\<lambda>f. [name f @ '':'',
                                          ''  mov eax, [esp + 4]'',
                                          ''  add eax, [esp + 8]'',
                                          ''  add eax, [esp + 12]'',
                                          ''  ret'']) (map snd fs)) @ post))
        else Inl err)"
proof (cases "inline_asm st = []")
  case True
  define bits where "bits = (case architecture st of
      None \<Rightarrow> []
    | Some a \<Rightarrow> if a = [] then []
                else [if lower a = ''x86'' then ''BITS 32'' else if lower a = ''x64'' then ''BITS 64''
                      else if lower a = ''x16'' then ''BITS 16'' else ''BITS 32''])"
  define org where "org = (case directives st ''start'' of
      None \<Rightarrow> [] | Some v \<Rightarrow> if v = [] then [] else [''ORG '' @ v])"
  define pre where "pre = bits @ org @ [''_start:'', ''  push 2'', ''  push 3'', ''  push 5'',
      ''  call add'', ''  add esp, 12''] @ map (\<lambda>l. ''  '' @ l) (code_outside_functions st)"
  define pad where "pad = (case directives st ''pad'' of
      None \<Rightarrow> [] | Some v \<Rightarrow> if v = [] then [] else [''  times '' @ v @ '' - ($ - $$) db 0''])"
  define sign where "sign = (case directives st ''sign'' of
      None \<Rightarrow> [] | Some v \<Rightarrow> if v = [] then [] else [''  dw '' @ v @ ''  ; Signature''])"
  let ?g = "\<lambda>f. [name f @ '':'', ''  mov eax, [esp + 4]'', ''  add eax, [esp + 8]'',
                 ''  add eax, [esp + 12]'', ''  ret'']"
  have bits: "(case architecture st of
         None \<Rightarrow> []
       | Some a \<Rightarrow> if a = [] then []
                   else [Some (if lower a = ''x86'' then ''BITS 32''
                               else if lower a = ''x64'' then ''BITS 64''
                               else if lower a = ''x16'' then ''BITS 16''
                               else ''BITS 32'')]) = map Some bits"
    by (simp add: bits_def split: option.splits)
  have org: "(case directives st ''start'' of
         None \<Rightarrow> [] | Some v \<Rightarrow> if v = [] then [] else [Some (''ORG '' @ v)]) = map Some org"
    by (simp add: org_def split: option.splits)
  have pad: "(case directives st ''pad'' of
         None \<Rightarrow> []
       | Some v \<Rightarrow> if v = [] then [] else [Some (''  times '' @ v @ '' - ($ - $$) db 0'')])
       = map Some pad"
    by (simp add: pad_def split: option.splits)
  have sign: "(case directives st ''sign'' of
         None \<Rightarrow> []
       | Some v \<Rightarrow> if v = [] then [] else [Some (''  dw '' @ v @ ''  ; Signature'')])
       = map Some sign"
    by (simp add: sign_def split: option.splits)
  have "generate_output (st\<lparr>functions_tbl := fs\<rparr>)
          = Inr (map Some (pre @ concat (map ?g (map snd fs)) @ (pad @ sign)))" for fs
    using True
    by (simp add: generate_output_empty bits org pad sign pre_def map_concat comp_def)
  then have "generate_code (st\<lparr>functions_tbl := fs\<rparr>)
          = Inr (join [CHR 0x0A] (pre @ concat (map ?g (map snd fs)) @ (pad @ sign)))" for fs
    by (simp only: generate_code_def join_output_Some sum.case)
  with True show ?thesis by auto
next
  case False
  then obtain m where m: "asm_loop 0 st [] = Inl (SyntaxError m)"
    using asm_loop_fails [of 0 st "[]"] by auto
  have "generate_code (st\<lparr>functions_tbl := fs\<rparr>) = Inl (SyntaxError m)" for fs
  proof -
    have "asm_loop 0 (st\<lparr>functions_tbl := fs\<rparr>) out = Inl (SyntaxError m)" for out
      by (rule asm_loop_error_cong [OF _ m]) simp
    then have "generate_output (st\<lparr>functions_tbl := fs\<rparr>) = Inl (SyntaxError m)"
      by (rule generate_output_error)
    then show ?thesis by (simp add: generate_code_def)
  qed
  with False show ?thesis by auto
qed

theorem functions_emitted_with_fixed_body_witness:
  "generate_code (init\<lparr>functions_tbl :=
       [(''add'', \<lparr>name = ''add'', params = [''a'', ''b'', ''c''], body = [''add(a, b, c)'']\<rparr>),
        (''sub'', \<lparr>name = ''sub'', params = [], body = []\<rparr>)]\<rparr>)
     = Inr (join [CHR 0x0A]
         [''_start:'', ''  push 2'', ''  push 3'', ''  push 5'', ''  call add'', ''  add esp, 12'',
          ''add:'', ''  mov eax, [esp + 4]'', ''  add eax, [esp + 8]'', ''  add eax, [esp + 12]'',
          ''  ret'',
          ''sub:'', ''  mov eax, [esp + 4]'', ''  add eax, [esp + 8]'', ''  add eax, [esp + 12]'',
          ''  ret''])
   \<and> generate_code (init\<lparr>functions_tbl :=
       [(''add'', \<lparr>name = ''add'', params = [], body = []\<rparr>),
        (''sub'', \<lparr>name = ''sub'', params = [''x''], body = [''sub(x)'']\<rparr>)]\<rparr>)
     = Inr (join [CHR 0x0A]
         [''_start:'', ''  push 2'', ''  push 3'', ''  push 5'', ''  call add'', ''  add esp, 12'',
          ''add:'', ''  mov eax, [esp + 4]'', ''  add eax, [esp + 8]'', ''  add eax, [esp + 12]'',
          ''  ret'',
          ''sub:'', ''  mov eax, [esp + 4]'', ''  add eax, [esp + 8]'', ''  add eax, [esp + 12]'',
          ''  ret''])"
proof -
  let ?t1 = "[(''add'', \<lparr>name = ''add'', params = [''a'', ''b'', ''c''],
                          body = [''add(a, b, c)'']\<rparr>),
        (''sub'', \<lparr>name = ''sub'', params = [], body = []\<rparr>)]"
  let ?t2 = "[(''add'', \<lparr>name = ''add'', params = [], body = []\<rparr>),
        (''sub'', \<lparr>name = ''sub'', params = [''x''], body = [''sub(x)'']\<rparr>)]"
  have e: "inline_asm init = []" by (simp add: init_def)
  have e1: "inline_asm (init\<lparr>functions_tbl := ?t1\<rparr>) = []" by (simp add: init_def)
  have t1: "generate_code (init\<lparr>functions_tbl := ?t1\<rparr>)
     = Inr (join [CHR 0x0A]
         [''_start:'', ''  push 2'', ''  push 3'', ''  push 5'', ''  call add'', ''  add esp, 12'',
          ''add:'', ''  mov eax, [esp + 4]'', ''  add eax, [esp + 8]'', ''  add eax, [esp + 12]'',
          ''  ret'',
          ''sub:'', ''  mov eax, [esp + 4]'', ''  add eax, [esp + 8]'', ''  add eax, [esp + 12]'',
          ''  ret''])"
    by (simp add: generate_code_def generate_output_empty [OF e1] join_output_def)
       (simp add: init_def)
  obtain pre post err where H: "\<forall>fs.
     generate_code (init\<lparr>functions_tbl := fs\<rparr>) =
       (if inline_asm init = []
        then Inr (join [CHR 0x0A]
               (pre @ concat (map (\<lambda>f. [name f @ '':'',
                                          ''  mov eax, [esp + 4]'',
                                          ''  add eax, [esp + 8]'',
                                          ''  add eax, [esp + 12]'',
                                          ''  ret'']) (map snd fs)) @ post))
        else Inl err)"
    using functions_emitted_with_fixed_body [of init] by blast
  have "generate_code (init\<lparr>functions_tbl := ?t2\<rparr>)
          = generate_code (init\<lparr>functions_tbl := ?t1\<rparr>)"
    using H [rule_format, of ?t1] H [rule_format, of ?t2] by simp
  with t1 show ?thesis by simp
qed

section \<open>The bit-width header\<close>



section \<open>Function definitions\<close>

lemma function_line_ab:
  "parse_line st ''function f(a, b)''
     = Inr (st\<lparr>current_function := Some \<lparr>name = ''f'', params = [''a'', ''b''], body = []\<rparr>\<rparr>)"
  by (simp add: parse_line_def parse_function_definition_def match_function_definition_def
        run_def strip_def char_defs)

lemma function_line_empty:
  "parse_line st ''function f()''
     = Inr (st\<lparr>current_function := Some \<lparr>name = ''f'', params = [], body = []\<rparr>\<rparr>)"
  by (simp add: parse_line_def parse_function_definition_def match_function_definition_def
        run_def strip_def char_defs)

lemma end_line: "parse_line st ''end'' = Inr (end_function_definition st)"
  by (simp add: parse_line_def)

lemma strip_end: "strip ''end'' = ''end''"
  by (simp add: strip_def char_defs)

lemma strip_function_ab: "strip ''function f(a, b)'' = ''function f(a, b)''"
  by (simp add: strip_def char_defs)

lemma strip_function_empty: "strip ''function f()'' = ''function f()''"
  by (simp add: strip_def char_defs)

text \<open>
  A line that neither opens nor closes a function leaves the table of functions alone and
  changes at most the body of the open function.
\<close>

lemma inner_line:
  assumes "\<not> startswith ''function'' l" and "l \<noteq> ''end''" and "parse_line st l = Inr st'"
  shows "functions_tbl st' = functions_tbl st
       \<and> (\<forall>cf. current_function st = Some cf \<longrightarrow>
             (\<exists>b. current_function st' = Some (cf\<lparr>body := b\<rparr>)))"
proof -
  have keep: "\<exists>b. Some cf = Some (cf\<lparr>body := b\<rparr>)" for cf :: func
    by (rule exI [of _ "body cf"]) simp
  show ?thesis
    using assms keep
    by (auto simp: rule_defs Let_def split: if_splits option.splits)
qed

lemma inner_lines:
  assumes "\<forall>l \<in> set mids. \<not> startswith ''function'' (strip l) \<and> strip l \<noteq> ''end''"
    and "current_function st = Some cf"
    and "parse_lines st (mids @ rest) = Inr st'"
  shows "\<exists>st1 b. functions_tbl st1 = functions_tbl st
            \<and> current_function st1 = Some (cf\<lparr>body := b\<rparr>)
            \<and> parse_lines st1 rest = Inr st'"
  using assms
proof (induction mids arbitrary: st cf)
  case Nil
  have "current_function st = Some (cf\<lparr>body := body cf\<rparr>)" using Nil by simp
  then show ?case using Nil by fastforce
next
  case (Cons l mids)
  show ?case
  proof (cases "strip l = []")
    case True
    then show ?thesis using Cons.IH [of st cf] Cons.prems by simp
  next
    case False
    then obtain st0 where st0: "parse_line st (strip l) = Inr st0"
      and rest: "parse_lines st0 (mids @ rest) = Inr st'"
      using Cons.prems(3) by (auto split: sum.splits)
    have l: "\<not> startswith ''function'' (strip l)" "strip l \<noteq> ''end''"
      using Cons.prems(1) by simp_all
    from inner_line [OF l st0] Cons.prems(2)
    obtain b0 where tbl: "functions_tbl st0 = functions_tbl st"
      and cur: "current_function st0 = Some (cf\<lparr>body := b0\<rparr>)" by blast
    from Cons.IH [OF _ cur rest] Cons.prems(1)
    obtain st1 b where "functions_tbl st1 = functions_tbl st0"
      "current_function st1 = Some (cf\<lparr>body := b0, body := b\<rparr>)"
      "parse_lines st1 rest = Inr st'" by auto
    then show ?thesis using tbl by auto
  qed
qed

lemma function_block:
  assumes "\<forall>l \<in> set mids. \<not> startswith ''function'' (strip l) \<and> strip l \<noteq> ''end''"
    and "strip first = first" and "first \<noteq> []"
    and "\<And>s. parse_line s first = Inr (s\<lparr>current_function := Some cf\<rparr>)"
    and "parse_lines st (first # mids @ [''end'']) = Inr st'"
  shows "current_function st' = None
       \<and> (\<exists>b. functions_tbl st' = dict_set (name cf) (cf\<lparr>body := b\<rparr>) (functions_tbl st)
              \<and> (functions_tbl st = [] \<longrightarrow> functions_tbl st' = [(name cf, cf\<lparr>body := b\<rparr>)]))"
proof -
  let ?st0 = "st\<lparr>current_function := Some cf\<rparr>"
  have "parse_lines ?st0 (mids @ [''end'']) = Inr st'"
    using assms(2-5) by simp
  from inner_lines [OF assms(1) _ this, of cf]
  obtain st1 b where tbl: "functions_tbl st1 = functions_tbl st"
    and cur: "current_function st1 = Some (cf\<lparr>body := b\<rparr>)"
    and fin: "parse_lines st1 [''end''] = Inr st'" by auto
  from fin have "st' = end_function_definition st1"
    by (simp add: strip_end end_line)
  then show ?thesis using tbl cur by (auto simp: end_function_definition_def)
qed

text \<open>
  Claim C8. Take the lines \<open>function f(a, b)\<close>, then any lines none of which starts
  with \<open>function\<close> or is \<open>end\<close>, then \<open>end\<close>. If their parse completes, from any state
  of the parser, the function slot is closed again and the table of functions is the
  former one with the single entry of key \<open>f\<close> set to a function of name \<open>f\<close> and
  parameters \<open>a\<close>, \<open>b\<close>; on a table that was empty this is the only entry. With
  \<open>function f()\<close> the entry has no parameters.
\<close>

theorem function_definition_recorded:
  assumes "\<forall>l \<in> set mids. \<not> startswith ''function'' (strip l) \<and> strip l \<noteq> ''end''"
  shows "(parse_lines st (''function f(a, b)'' # mids @ [''end'']) = Inr st' \<longrightarrow>
            current_function st' = None
          \<and> (\<exists>b. functions_tbl st'
                   = dict_set ''f'' \<lparr>name = ''f'', params = [''a'', ''b''], body = b\<rparr>
                       (functions_tbl st)
                 \<and> (functions_tbl st = [] \<longrightarrow> functions_tbl st'
                       = [(''f'', \<lparr>name = ''f'', params = [''a'', ''b''], body = b\<rparr>)])))
       \<and> (parse_lines st (''function f()'' # mids @ [''end'']) = Inr st' \<longrightarrow>
            current_function st' = None
          \<and> (\<exists>b. functions_tbl st'
                   = dict_set ''f'' \<lparr>name = ''f'', params = [], body = b\<rparr> (functions_tbl st)
                 \<and> (functions_tbl st = [] \<longrightarrow> functions_tbl st'
                       = [(''f'', \<lparr>name = ''f'', params = [], body = b\<rparr>)])))"
  using function_block [OF assms strip_function_ab _ function_line_ab, of st st']
    function_block [OF assms strip_function_empty _ function_line_empty, of st st']
  by simp

theorem function_definition_recorded_witness:
  "\<not> startswith ''function'' (strip ''  f(a, b)'') \<and> strip ''  f(a, b)'' \<noteq> ''end''
   \<and> \<not> startswith ''function'' (strip ''mov eax, 1'') \<and> strip ''mov eax, 1'' \<noteq> ''end''
   \<and> parse_lines init (''function f(a, b)'' # [''  f(a, b)'', ''mov eax, 1''] @ [''end''])
       = Inr (init\<lparr>functions_tbl :=
                     [(''f'', \<lparr>name = ''f'', params = [''a'', ''b''], body = [''f(a, b)'']\<rparr>)],
                   code_outside_functions := [''mov eax, 1'']\<rparr>)
   \<and> current_function (init\<lparr>functions_tbl :=
                     [(''f'', \<lparr>name = ''f'', params = [''a'', ''b''], body = [''f(a, b)'']\<rparr>)],
                   code_outside_functions := [''mov eax, 1'']\<rparr>) = None
   \<and> (\<exists>b. functions_tbl (init\<lparr>functions_tbl :=
                     [(''f'', \<lparr>name = ''f'', params = [''a'', ''b''], body = [''f(a, b)'']\<rparr>)],
                   code_outside_functions := [''mov eax, 1'']\<rparr>)
          = dict_set ''f'' \<lparr>name = ''f'', params = [''a'', ''b''], body = b\<rparr>
              (functions_tbl init))"
proof -
  have a: "\<forall>l \<in> set [''  f(a, b)'', ''mov eax, 1''].
       \<not> startswith ''function'' (strip l) \<and> strip l \<noteq> ''end''"
    by (simp add: strip_def char_defs)
  have h: "parse_lines init (''function f(a, b)'' # [''  f(a, b)'', ''mov eax, 1''] @ [''end''])
       = Inr (init\<lparr>functions_tbl :=
                     [(''f'', \<lparr>name = ''f'', params = [''a'', ''b''], body = [''f(a, b)'']\<rparr>)],
                   code_outside_functions := [''mov eax, 1'']\<rparr>)"
    by (simp add: eval_defs)
  have s: "\<not> startswith ''function'' (strip ''  f(a, b)'') \<and> strip ''  f(a, b)'' \<noteq> ''end''
   \<and> \<not> startswith ''function'' (strip ''mov eax, 1'') \<and> strip ''mov eax, 1'' \<noteq> ''end''"
    using a by simp
  show ?thesis
    using s h function_definition_recorded [OF a, of init
        "init\<lparr>functions_tbl :=
                 [(''f'', \<lparr>name = ''f'', params = [''a'', ''b''], body = [''f(a, b)'']\<rparr>)],
               code_outside_functions := [''mov eax, 1'']\<rparr>"]
    by blast
qed

section \<open>Text after a directive or an import\<close>

lemma run_class:
  assumes "w \<noteq> []" and "list_all cls w" and "r = [] \<or> \<not> cls (hd r)"
  shows "run cls (w @ r) = Some (w, r)"
proof -
  have all: "\<forall>c \<in> set w. cls c" using assms(2) by (simp add: list_all_iff)
  have "takeWhile cls (w @ r) = w \<and> dropWhile cls (w @ r) = r"
  proof (cases r)
    case Nil
    then show ?thesis using all by simp
  next
    case (Cons c cs)
    then have "\<not> cls c" using assms(3) by simp
    then show ?thesis using all Cons
      by (simp add: takeWhile_append2 dropWhile_append2)
  qed
  then show ?thesis using assms(1) by (simp add: run_def)
qed

lemma lit_append: "lit p (p @ r) = Some r"
  by (induction p) auto

lemma lit_Some: "lit p s = Some r \<Longrightarrow> s = p @ r"
  by (induction p s rule: lit.induct) (auto split: if_splits)

lemma directive_value_hex:
  assumes "h \<noteq> []" and "list_all is_hex h"
  shows "directive_value (''0x'' @ h @ '')]'' @ t) = Some (''0x'' @ h)"
proof -
  have "run is_hex (h @ ('')]'' @ t)) = Some (h, '')]'' @ t)"
    by (rule run_class [OF assms]) (simp add: char_defs)
  then show ?thesis by (simp add: directive_value_def)
qed

lemma directive_value_dec:
  assumes "d \<noteq> []" and "list_all is_digit d"
  shows "directive_value (d @ '')]'' @ t) = Some d"
proof -
  have r: "run is_digit (d @ ('')]'' @ t)) = Some (d, '')]'' @ t)"
    by (rule run_class [OF assms]) (simp add: char_defs)
  have x: "\<not> is_digit CHR ''x''" by (simp add: char_defs)
  obtain c d' where d: "d = c # d'" using assms(1) by (cases d) auto
  have "lit ''0x'' (d @ '')]'' @ t) = None"
  proof (cases d')
    case Nil
    then show ?thesis using d by simp
  next
    case (Cons e d'')
    then have "is_digit e" using assms(2) d by simp
    then have "e \<noteq> CHR ''x''" using x by auto
    then show ?thesis using d Cons by simp
  qed
  then show ?thesis using r by (simp add: directive_value_def)
qed

lemma directive_line:
  assumes "nm \<in> {''start'', ''pad'', ''sign''}"
    and "(\<exists>h. v = ''0x'' @ h \<and> h \<noteq> [] \<and> list_all is_hex h) \<or> (v \<noteq> [] \<and> list_all is_digit v)"
  shows "parse_line st (''#!['' @ nm @ ''('' @ v @ '')]'' @ t)
           = Inr (st\<lparr>directives := (directives st)(nm \<mapsto> v)\<rparr>)"
proof -
  have v: "directive_value (v @ '')]'' @ t) = Some v"
    using assms(2) directive_value_hex [of _ t] directive_value_dec [of v t] by auto
  have "match_directive (''#!['' @ nm @ ''('' @ v @ '')]'' @ t) = Some (nm, v)"
    using assms(1) v by (auto simp: match_directive_def directive_named_def)
  moreover have "\<not> startswith ''import'' (''#!['' @ nm @ ''('' @ v @ '')]'' @ t)"
    "\<not> startswith ''#!arch['' (''#!['' @ nm @ ''('' @ v @ '')]'' @ t)"
    "startswith ''#!['' (''#!['' @ nm @ ''('' @ v @ '')]'' @ t)" by simp_all
  ultimately show ?thesis by (simp add: parse_line_def parse_directive_def)
qed

text \<open>The greedy search ends at the last place where the rest of the pattern matches.\<close>

lemma dot_star_none:
  "\<forall>j \<le> length ys. k (drop j ys) = None \<Longrightarrow> dot_star k acc ys = None"
proof (induction ys arbitrary: acc)
  case Nil
  then show ?case by simp
next
  case (Cons c cs)
  have here: "k (c # cs) = None" using Cons.prems [rule_format, of 0] by simp
  have "\<forall>j \<le> length cs. k (drop j cs) = None"
  proof (intro allI impI)
    fix j assume "j \<le> length cs"
    then show "k (drop j cs) = None" using Cons.prems [rule_format, of "Suc j"] by simp
  qed
  then have "dot_star k (acc @ [c]) cs = None" by (rule Cons.IH)
  then show ?case using here by auto
qed

lemma dot_star_first:
  assumes "k ys = Some v" and "\<forall>j. 0 < j \<and> j \<le> length ys \<longrightarrow> k (drop j ys) = None"
  shows "dot_star k acc ys = Some (acc, v)"
proof (cases ys)
  case Nil
  then show ?thesis using assms(1) by simp
next
  case (Cons c cs)
  have "\<forall>j \<le> length cs. k (drop j cs) = None"
  proof (intro allI impI)
    fix j assume "j \<le> length cs"
    then show "k (drop j cs) = None" using assms(2) [rule_format, of "Suc j"] Cons by simp
  qed
  then have "dot_star k (acc @ [c]) cs = None" by (rule dot_star_none)
  then show ?thesis using assms(1) Cons by auto
qed

lemma dot_star_last:
  assumes "CHR 0x0A \<notin> set xs" and "k ys = Some v"
    and "\<forall>j. 0 < j \<and> j \<le> length ys \<longrightarrow> k (drop j ys) = None"
  shows "dot_star k acc (xs @ ys) = Some (acc @ xs, v)"
  using assms(1)
proof (induction xs arbitrary: acc)
  case Nil
  then show ?case using dot_star_first [OF assms(2,3)] by simp
next
  case (Cons x xs)
  then have "dot_star k (acc @ [x]) (xs @ ys) = Some ((acc @ [x]) @ xs, v)" by simp
  then show ?case using Cons.prems by auto
qed

lemma from_module_Some:
  assumes "from_module s = Some x"
  shows "\<exists>w. s = ''] from '' @ w \<and> w \<noteq> [] \<and> is_word (hd w)"
proof -
  from assms obtain r where r: "lit ''] from '' s = Some r" and run: "run is_word r \<noteq> None"
    by (auto simp: from_module_def split: option.splits)
  from run have "takeWhile is_word r \<noteq> []" by (auto simp: run_def split: if_splits)
  then have "r \<noteq> [] \<and> is_word (hd r)" by (cases r) (auto split: if_splits)
  then show ?thesis using lit_Some [OF r] by auto
qed

lemma from_module_tail:
  assumes m: "m \<noteq> []" "list_all is_word m"
    and t: "t = [] \<or> \<not> is_word (hd t)"
    and later: "\<not> (\<exists>u w. t = u @ ''] from '' @ w \<and> w \<noteq> [] \<and> is_word (hd w))"
  shows "from_module (''] from '' @ m @ t) = Some m"
    and "\<forall>j. 0 < j \<and> j \<le> length (''] from '' @ m @ t)
           \<longrightarrow> from_module (drop j (''] from '' @ m @ t)) = None"
proof -
  have "run is_word (m @ t) = Some (m, t)" by (rule run_class [OF m t])
  then show "from_module (''] from '' @ m @ t) = Some m"
    by (simp add: from_module_def)
  have notw: "\<not> is_word CHR '']''" by (simp add: char_defs)
  show "\<forall>j. 0 < j \<and> j \<le> length (''] from '' @ m @ t)
           \<longrightarrow> from_module (drop j (''] from '' @ m @ t)) = None"
  proof (intro allI impI)
    fix j assume j: "0 < j \<and> j \<le> length (''] from '' @ m @ t)"
    show "from_module (drop j (''] from '' @ m @ t)) = None"
    proof (rule ccontr)
      assume "from_module (drop j (''] from '' @ m @ t)) \<noteq> None"
      then obtain w where w: "drop j (''] from '' @ m @ t) = ''] from '' @ w"
        "w \<noteq> []" "is_word (hd w)"
        using from_module_Some by blast
      consider "j \<le> 6" | "7 \<le> j" "j < 7 + length m" | "7 + length m \<le> j" by linarith
      then show False
      proof cases
        case 1
        then have "j \<in> {1, 2, 3, 4, 5, 6}" using j by auto
        then show False using w(1) by auto
      next
        case 2
        then obtain i where i: "j = 7 + i" "i < length m"
          by (metis add_diff_inverse_nat less_diff_conv2 not_less nat_add_left_cancel_less)
        have "drop j (''] from '' @ (m @ t))
                = drop j ''] from '' @ drop (j - length ''] from '') (m @ t)"
          by (rule drop_append)
        then have "drop j (''] from '' @ m @ t) = drop i m @ t" using i by simp
        moreover have "drop i m = m ! i # drop (Suc i) m" using i by (simp add: Cons_nth_drop_Suc)
        ultimately have "m ! i = CHR '']''" using w(1) by simp
        moreover have "is_word (m ! i)" using m(2) i by (simp add: list_all_length)
        ultimately show False using notw by simp
      next
        case 3
        then obtain i where i: "j = 7 + length m + i" by (metis le_Suc_ex)
        have "drop j (''] from '' @ (m @ t))
                = drop j ''] from '' @ drop (j - length ''] from '') (m @ t)"
          by (rule drop_append)
        then have "drop j (''] from '' @ m @ t) = drop i t" using i by simp
        then have "t = take i t @ ''] from '' @ w" using w(1) by (metis append_take_drop_id)
        then show False using later w(2,3) by blast
      qed
    qed
  qed
qed

lemma multi_import_line:
  assumes "ns \<noteq> []" and "CHR 0x0A \<notin> set ns"
    and "m \<noteq> []" and "list_all is_word m"
    and "t = [] \<or> \<not> is_word (hd t)"
    and "\<not> (\<exists>u w. t = u @ ''] from '' @ w \<and> w \<noteq> [] \<and> is_word (hd w))"
  shows "parse_line st (''import ['' @ ns @ ''] from '' @ m @ t)
           = Inr (st\<lparr>imports_tbl :=
                    foldl (\<lambda>tbl g. tbl(g \<mapsto> m)) (imports_tbl st)
                      (map strip (split_on CHR '','' ns))\<rparr>)"
proof -
  obtain n ns' where ns: "ns = n # ns'" using assms(1) by (cases ns) auto
  have nl: "n \<noteq> CHR 0x0A" "CHR 0x0A \<notin> set ns'" using assms(2) ns by auto
  have "dot_star from_module [n] (ns' @ ''] from '' @ m @ t) = Some ([n] @ ns', m)"
    by (rule dot_star_last [OF nl(2) from_module_tail [OF assms(3-6)]])
  then have multi: "match_multi_import (''import ['' @ ns @ ''] from '' @ m @ t) = Some (ns, m)"
    using nl(1) ns by (simp add: match_multi_import_def)
  have "run is_word (''['' @ ns @ ''] from '' @ m @ t) = None"
    by (simp add: run_def char_defs)
  then have single: "match_single_import (''import ['' @ ns @ ''] from '' @ m @ t) = None"
    by (simp add: match_single_import_def)
  show ?thesis using multi single by (simp add: parse_line_def parse_import_definition_def)
qed

lemma run_class_more:
  assumes "w \<noteq> []" and "list_all cls w"
  shows "run cls (w @ r) = Some (w @ takeWhile cls r, dropWhile cls r)"
  using assms by (simp add: run_def list_all_iff takeWhile_append2 dropWhile_append2)

lemma single_import_line_any:
  assumes "f \<noteq> []" and "list_all is_word f" and "m \<noteq> []" and "list_all is_word m"
  shows "parse_line st (''import '' @ f @ '' from '' @ m @ t)
           = Inr (st\<lparr>imports_tbl := (imports_tbl st)(f \<mapsto> m @ takeWhile is_word t)\<rparr>)"
proof -
  have f: "run is_word (f @ ('' from '' @ m @ t)) = Some (f, '' from '' @ m @ t)"
    by (rule run_class [OF assms(1,2)]) (simp add: char_defs)
  have m: "run is_word (m @ t) = Some (m @ takeWhile is_word t, dropWhile is_word t)"
    by (rule run_class_more [OF assms(3,4)])
  have "match_single_import (''import '' @ f @ '' from '' @ m @ t)
          = Some (f, m @ takeWhile is_word t)"
    using f m by (simp add: match_single_import_def lit_append)
  then show ?thesis by (simp add: parse_line_def parse_import_definition_def)
qed

text \<open>
  Claim C10 fails as it is stated: after \<open>import f from m\<close> the trailing text \<open>junk\<close>
  becomes part of the module name, and after \<open>import [a] from m\<close> the trailing text
  \<open> ] from q\<close> moves the end of the list of names.
\<close>

theorem trailing_text_counterexample:
  "map_sum id (\<lambda>s. imports_tbl s ''f'') (parse_line init (''import f from m'' @ ''junk''))
     = Inr (Some ''mjunk'')
   \<and> map_sum id (\<lambda>s. imports_tbl s ''f'') (parse_line init ''import f from m'')
     = Inr (Some ''m'')
   \<and> map_sum id (\<lambda>s. (imports_tbl s ''a'', imports_tbl s ''a] from m''))
       (parse_line init (''import [a] from m'' @ '' ] from q''))
     = Inr (None, Some ''q'')
   \<and> map_sum id (\<lambda>s. (imports_tbl s ''a'', imports_tbl s ''a] from m''))
       (parse_line init ''import [a] from m'')
     = Inr (Some ''m'', None)"
  by (simp add: eval_defs)

text \<open>
  Claim C10, as amended. The patterns of the directive rule and of the import rule are
  not anchored at the end of the line, and a line that starts with a well-formed
  directive or import is parsed without a \<open>SyntaxError\<close> whatever follows:
  \<^item> after a directive \<open>#![name(value)]\<close>, with \<open>name\<close> one of \<open>start\<close>, \<open>pad\<close>,
    \<open>sign\<close> and \<open>value\<close> a \<open>0x\<close> numeral or a decimal numeral, any trailing text \<open>t\<close>
    is ignored: \<open>value\<close> is stored under \<open>name\<close>;
  \<^item> after \<open>import f from m\<close> the name \<open>f\<close> is bound to \<open>m\<close> followed by the word
    characters that \<open>t\<close> starts with, hence to \<open>m\<close> when \<open>t\<close> is empty or starts with
    a character that is not a word character;
  \<^item> after \<open>import [names] from m\<close> every name of the list is bound to \<open>m\<close>, as
    without \<open>t\<close>, when \<open>t\<close> does not start with a word character and holds no further
    \<open>] from\<close> followed by a word character.
\<close>

theorem trailing_text_after_prefix:
  "(nm \<in> {''start'', ''pad'', ''sign''}
      \<and> ((\<exists>h. v = ''0x'' @ h \<and> h \<noteq> [] \<and> list_all is_hex h) \<or> (v \<noteq> [] \<and> list_all is_digit v))
    \<longrightarrow> parse_line st (''#!['' @ nm @ ''('' @ v @ '')]'' @ t)
          = Inr (st\<lparr>directives := (directives st)(nm \<mapsto> v)\<rparr>))
   \<and> (f \<noteq> [] \<and> list_all is_word f \<and> m \<noteq> [] \<and> list_all is_word m
    \<longrightarrow> parse_line st (''import '' @ f @ '' from '' @ m @ t)
          = Inr (st\<lparr>imports_tbl := (imports_tbl st)(f \<mapsto> m @ takeWhile is_word t)\<rparr>))
   \<and> (ns \<noteq> [] \<and> CHR 0x0A \<notin> set ns \<and> m \<noteq> [] \<and> list_all is_word m
      \<and> (t = [] \<or> \<not> is_word (hd t))
      \<and> \<not> (\<exists>u w. t = u @ ''] from '' @ w \<and> w \<noteq> [] \<and> is_word (hd w))
    \<longrightarrow> parse_line st (''import ['' @ ns @ ''] from '' @ m @ t)
          = Inr (st\<lparr>imports_tbl :=
                   foldl (\<lambda>tbl g. tbl(g \<mapsto> m)) (imports_tbl st)
                     (map strip (split_on CHR '','' ns))\<rparr>))"
  using directive_line [of nm v st t] single_import_line_any [of f m st t]
    multi_import_line [of ns m t st]
  by blast

theorem trailing_text_after_prefix_witness:
  "parse_line init ''#![pad(5)] junk''
       = Inr (init\<lparr>directives := (directives init)(''pad'' \<mapsto> ''5'')\<rparr>)
   \<and> parse_line init ''#![pad(5)]''
       = Inr (init\<lparr>directives := (directives init)(''pad'' \<mapsto> ''5'')\<rparr>)
   \<and> parse_line init ''import f from m junk''
       = Inr (init\<lparr>imports_tbl := (imports_tbl init)(''f'' \<mapsto> ''m'')\<rparr>)
   \<and> parse_line init ''import [a, b] from m junk''
       = Inr (init\<lparr>imports_tbl := (imports_tbl init)(''a'' \<mapsto> ''m'', ''b'' \<mapsto> ''m'')\<rparr>)"
proof -
  have later: "\<not> (\<exists>u w. '' junk'' = u @ ''] from '' @ w \<and> w \<noteq> [] \<and> is_word (hd w))"
  proof
    assume "\<exists>u w. '' junk'' = u @ ''] from '' @ w \<and> w \<noteq> [] \<and> is_word (hd w)"
    then obtain u w where "'' junk'' = u @ ''] from '' @ w" by blast
    then have "set '' junk'' = set (u @ ''] from '' @ w)" by (rule arg_cong)
    then show False by auto
  qed
  have hyps: "''pad'' \<in> {''start'', ''pad'', ''sign''}" "''5'' \<noteq> []" "list_all is_digit ''5''"
    "''f'' \<noteq> []" "list_all is_word ''f''" "''m'' \<noteq> []" "list_all is_word ''m''"
    "''a, b'' \<noteq> []" "CHR 0x0A \<notin> set ''a, b''" "\<not> is_word (hd '' junk'')"
    by (simp_all add: char_defs)
  from hyps later
    trailing_text_after_prefix [where nm = "''pad''" and v = "''5''" and st = init and t = "'' junk''"
          and f = "''f''" and m = "''m''" and ns = "''a, b''"]
  have a: "parse_line init (''#!['' @ ''pad'' @ ''('' @ ''5'' @ '')]'' @ '' junk'')
          = Inr (init\<lparr>directives := (directives init)(''pad'' \<mapsto> ''5'')\<rparr>)"
    and b: "parse_line init (''import '' @ ''f'' @ '' from '' @ ''m'' @ '' junk'')
          = Inr (init\<lparr>imports_tbl := (imports_tbl init)(''f'' \<mapsto> ''m'' @ takeWhile is_word '' junk'')\<rparr>)"
    and c: "parse_line init (''import ['' @ ''a, b'' @ ''] from '' @ ''m'' @ '' junk'')
          = Inr (init\<lparr>imports_tbl :=
                   foldl (\<lambda>tbl g. tbl(g \<mapsto> ''m'')) (imports_tbl init)
                     (map strip (split_on CHR '','' ''a, b''))\<rparr>)"
    by blast+
  from hyps
    trailing_text_after_prefix [where nm = "''pad''" and v = "''5''" and st = init and t = "[]"]
  have d: "parse_line init (''#!['' @ ''pad'' @ ''('' @ ''5'' @ '')]'' @ [])
          = Inr (init\<lparr>directives := (directives init)(''pad'' \<mapsto> ''5'')\<rparr>)"
    by blast
  show ?thesis using a b c d by (simp add: char_defs strip_def)
qed

end
